theory Spec2Isabelle
  imports Complex_Main "HOL-Library.Product_Lexorder" "HOL-Library.Multiset"
begin

section \<open>Numbers of the working table\<close>

text \<open>
  The columns that \<^verbatim>\<open>gini\<close> works on hold floating-point numbers. They are modelled
  as exact rationals extended by the three special values that a division by zero
  produces in pandas (no exception is raised there): rounding, overflow and the
  sign of zero are left out, the special values and their arithmetic are kept.
\<close>

datatype fval = Fin rat | PInf | NInf | NaN

fun fneg :: "fval \<Rightarrow> fval" where
  "fneg (Fin a) = Fin (- a)"
| "fneg PInf = NInf"
| "fneg NInf = PInf"
| "fneg NaN = NaN"

fun fadd :: "fval \<Rightarrow> fval \<Rightarrow> fval" where
  "fadd (Fin a) (Fin b) = Fin (a + b)"
| "fadd (Fin a) PInf = PInf"
| "fadd (Fin a) NInf = NInf"
| "fadd PInf (Fin b) = PInf"
| "fadd PInf PInf = PInf"
| "fadd PInf NInf = NaN"
| "fadd NInf (Fin b) = NInf"
| "fadd NInf NInf = NInf"
| "fadd NInf PInf = NaN"
| "fadd NaN y = NaN"
| "fadd x NaN = NaN"

definition fsub :: "fval \<Rightarrow> fval \<Rightarrow> fval" where
  "fsub x y = fadd x (fneg y)"

fun fsgn :: "fval \<Rightarrow> int" where
  "fsgn (Fin a) = (if 0 < a then 1 else if a < 0 then - 1 else 0)"
| "fsgn PInf = 1"
| "fsgn NInf = - 1"
| "fsgn NaN = 0"

definition signed_inf :: "int \<Rightarrow> fval" where
  "signed_inf s = (if 0 < s then PInf else if s < 0 then NInf else NaN)"

fun fmul :: "fval \<Rightarrow> fval \<Rightarrow> fval" where
  "fmul (Fin a) (Fin b) = Fin (a * b)"
| "fmul NaN y = NaN"
| "fmul x NaN = NaN"
| "fmul x y = signed_inf (fsgn x * fsgn y)"

text \<open>
  Division of a column by a scalar: a zero divisor gives an infinity of the sign of
  the dividend, and \<open>0 / 0\<close> gives \<open>NaN\<close>; a finite value over an infinity is \<open>0\<close>.
\<close>

fun fdiv :: "fval \<Rightarrow> fval \<Rightarrow> fval" where
  "fdiv (Fin a) (Fin b) = (if b \<noteq> 0 then Fin (a / b) else signed_inf (fsgn (Fin a)))"
| "fdiv NaN y = NaN"
| "fdiv x NaN = NaN"
| "fdiv (Fin a) y = Fin 0"
| "fdiv x (Fin b) = (if b < 0 then fneg x else x)"
| "fdiv x y = NaN"

text \<open>
  \<^verbatim>\<open>Series.sum()\<close> skips \<open>NaN\<close> entries (\<^verbatim>\<open>skipna=True\<close> is the default) and is \<open>0\<close> on
  an empty or all-\<open>NaN\<close> column.
\<close>

definition psum :: "fval list \<Rightarrow> fval" where
  "psum xs = foldr fadd (filter (\<lambda>x. x \<noteq> NaN) xs) (Fin 0)"

text \<open>
  \<^verbatim>\<open>Series.cumsum()\<close> also skips \<open>NaN\<close> entries: such an entry stays \<open>NaN\<close> and does
  not enter the running total.
\<close>

fun cumsum_from :: "fval \<Rightarrow> fval list \<Rightarrow> fval list" where
  "cumsum_from acc [] = []"
| "cumsum_from acc (x # xs) =
     (if x = NaN then NaN # cumsum_from acc xs
      else fadd acc x # cumsum_from (fadd acc x) xs)"

definition cumsum :: "fval list \<Rightarrow> fval list" where
  "cumsum xs = cumsum_from (Fin 0) xs"

definition col_div :: "fval list \<Rightarrow> fval \<Rightarrow> fval list" where
  "col_div xs s = map (\<lambda>x. fdiv x s) xs"

definition col_sub :: "fval list \<Rightarrow> fval list \<Rightarrow> fval list" where
  "col_sub xs ys = map (\<lambda>(x, y). fsub x y) (zip xs ys)"

definition col_mul :: "fval list \<Rightarrow> fval list \<Rightarrow> fval list" where
  "col_mul xs ys = map (\<lambda>(x, y). fmul x y) (zip xs ys)"


section \<open>Tables\<close>

text \<open>
  A table has a row count and named columns. Every column of a table that pandas or
  H2O hands out has as many entries as the table has rows (\<open>wf_frame\<close>).
\<close>

record frame =
  nrows :: nat
  cols :: "string \<Rightarrow> fval list option"

definition wf_frame :: "frame \<Rightarrow> bool" where
  "wf_frame df = (\<forall>c xs. cols df c = Some xs \<longrightarrow> length xs = nrows df)"

datatype error = KeyError | DuplicateLabels | AttributeOrTypeError

definition bindE :: "error + 'a \<Rightarrow> ('a \<Rightarrow> error + 'b) \<Rightarrow> error + 'b" where
  "bindE m f = (case m of Inl e \<Rightarrow> Inl e | Inr x \<Rightarrow> f x)"

definition getcol :: "frame \<Rightarrow> string \<Rightarrow> error + fval list" where
  "getcol df c = (case cols df c of None \<Rightarrow> Inl KeyError | Some xs \<Rightarrow> Inr xs)"

definition setcol :: "frame \<Rightarrow> string \<Rightarrow> fval list \<Rightarrow> frame" where
  "setcol df c xs = df\<lparr>cols := (cols df)(c \<mapsto> xs)\<rparr>"

text \<open>
  Sorting by a column. The rows whose key is \<open>NaN\<close> go last in their input order;
  the others are sorted by key. For a descending sort pandas reverses the rows, sorts
  them ascending and reverses the result. Where rows of equal keys end up is decided by
  the sorting routine of the library, which is not part of \<^verbatim>\<open>gini\<close>; here the routine
  is an insertion sort, which keeps them in input order.
\<close>

fun fkey :: "fval \<Rightarrow> int \<times> rat" where
  "fkey NInf = (- 1, 0)"
| "fkey (Fin a) = (0, a)"
| "fkey PInf = (1, 0)"
| "fkey NaN = (2, 0)"

definition reorder :: "bool \<Rightarrow> fval list \<Rightarrow> 'a list \<Rightarrow> 'a list" where
  "reorder asc keys xs =
     (let rows = zip keys xs;
          non_nans = filter (\<lambda>r. fst r \<noteq> NaN) rows;
          nans = filter (\<lambda>r. fst r = NaN) rows;
          sorted_rows = (if asc then sort_key (\<lambda>r. fkey (fst r)) non_nans
                         else rev (sort_key (\<lambda>r. fkey (fst r)) (rev non_nans)))
      in map snd (sorted_rows @ nans))"

definition sort_values :: "string \<Rightarrow> bool \<Rightarrow> frame \<Rightarrow> error + frame" where
  "sort_values by asc df =
     (case cols df by of
        None \<Rightarrow> Inl KeyError
      | Some keys \<Rightarrow> Inr (df\<lparr>cols := (\<lambda>c. map_option (reorder asc keys) (cols df c))\<rparr>))"

text \<open>
  The projection \<^verbatim>\<open>[[target]]\<close> or \<^verbatim>\<open>[[target, weight]]\<close>. A missing column is a
  \<^verbatim>\<open>KeyError\<close>. When \<^verbatim>\<open>target\<close> and \<^verbatim>\<open>weight\<close> are one name the projected table carries
  that label twice; what the backends do with such a table is outside this model,
  which stops there with \<open>DuplicateLabels\<close>.
\<close>

definition select :: "string list \<Rightarrow> frame \<Rightarrow> error + frame" where
  "select names df =
     (if list_ex (\<lambda>c. cols df c = None) names then Inl KeyError
      else if \<not> distinct names then Inl DuplicateLabels
      else Inr (df\<lparr>cols := (\<lambda>c. if c \<in> set names then cols df c else None)\<rparr>))"

definition reset_index :: "frame \<Rightarrow> frame" where
  "reset_index df = df"


section \<open>The argument \<^verbatim>\<open>data\<close>\<close>

text \<open>
  \<^verbatim>\<open>gini\<close> looks at \<^verbatim>\<open>str(type(data))\<close> and searches it for the words \<^verbatim>\<open>pandas\<close> and
  \<^verbatim>\<open>H2OFrame\<close>. An object that is neither a pandas DataFrame nor an H2OFrame is
  represented by that string alone.
\<close>

datatype pyobj = PandasDataFrame frame | H2OFrame frame | OtherObject string

fun type_str :: "pyobj \<Rightarrow> string" where
  "type_str (PandasDataFrame df) = ''<class 'pandas.core.frame.DataFrame'>''"
| "type_str (H2OFrame df) = ''<class 'h2o.frame.H2OFrame'>''"
| "type_str (OtherObject s) = s"

fun starts_with :: "string \<Rightarrow> string \<Rightarrow> bool" where
  "starts_with [] s = True"
| "starts_with (p # ps) [] = False"
| "starts_with (p # ps) (c # cs) = (p = c \<and> starts_with ps cs)"

fun str_contains :: "string \<Rightarrow> string \<Rightarrow> bool" where
  "str_contains p [] = (p = [])"
| "str_contains p (c # cs) = (starts_with p (c # cs) \<or> str_contains p cs)"


section \<open>The function \<^verbatim>\<open>gini\<close>\<close>

text \<open>
  Lines 53 to 59 (pandas) and 64 to 69 (H2O): sort by the ranking column, project, and
  attach a column of ones named \<^verbatim>\<open>weight\<close> when no weight column was given. The result
  is the working table and the name of its weight column. Both backends are given the
  same table operations.
\<close>

definition prepare_pandas ::
  "frame \<Rightarrow> string \<Rightarrow> string \<Rightarrow> string option \<Rightarrow> bool \<Rightarrow> error + frame \<times> string" where
  "prepare_pandas df target ranking weight ascending =
     (case weight of
        None \<Rightarrow>
          bindE (sort_values ranking ascending df) (\<lambda>s.
          bindE (select [target] s) (\<lambda>sorted_data.
          Inr (reset_index
                 (setcol sorted_data ''weight'' (replicate (nrows sorted_data) (Fin 1))),
               ''weight'')))
      | Some w \<Rightarrow>
          bindE (sort_values ranking ascending df) (\<lambda>s.
          bindE (select [target, w] s) (\<lambda>sorted_data.
          Inr (reset_index sorted_data, w))))"

definition prepare_h2o ::
  "frame \<Rightarrow> string \<Rightarrow> string \<Rightarrow> string option \<Rightarrow> bool \<Rightarrow> error + frame \<times> string" where
  "prepare_h2o df target ranking weight ascending =
     (case weight of
        None \<Rightarrow>
          bindE (sort_values ranking ascending df) (\<lambda>s.
          bindE (select [target] s) (\<lambda>sorted_data.
          Inr (setcol sorted_data ''weight'' (replicate (nrows sorted_data) (Fin 1)),
               ''weight'')))
      | Some w \<Rightarrow>
          bindE (sort_values ranking ascending df) (\<lambda>s.
          bindE (select [target, w] s) (\<lambda>sorted_data.
          Inr (sorted_data, w))))"

text \<open>Lines 76 and 77: each of the two columns is divided by its own sum.\<close>

definition normalize :: "frame \<Rightarrow> string \<Rightarrow> string \<Rightarrow> error + frame" where
  "normalize sorted_data target weight =
     bindE (getcol sorted_data target) (\<lambda>t.
     let sd1 = setcol sorted_data target (col_div t (psum t)) in
     bindE (getcol sd1 weight) (\<lambda>w.
     Inr (setcol sd1 weight (col_div w (psum w)))))"

text \<open>Lines 86 to 89: twice the sum of the column \<^verbatim>\<open>lift\<close>, negated for a descending sort.\<close>

definition gini_index :: "bool \<Rightarrow> fval list \<Rightarrow> fval" where
  "gini_index ascending lift =
     (if ascending then fmul (Fin 2) (psum lift) else fmul (Fin (- 2)) (psum lift))"

text \<open>Lines 80 to 89: running totals, the column \<^verbatim>\<open>lift\<close> and the coefficient.\<close>

definition integrate :: "frame \<Rightarrow> string \<Rightarrow> string \<Rightarrow> bool \<Rightarrow> error + fval" where
  "integrate sd2 target weight ascending =
     bindE (getcol sd2 target) (\<lambda>t.
     let sd3 = setcol sd2 ''cumul_total'' (cumsum t) in
     bindE (getcol sd3 weight) (\<lambda>w.
     let sd4 = setcol sd3 ''cumul_weight'' (cumsum w) in
     bindE (getcol sd4 ''cumul_weight'') (\<lambda>cw.
     bindE (getcol sd4 ''cumul_total'') (\<lambda>ct.
     bindE (getcol sd4 weight) (\<lambda>w'.
     let sd5 = setcol sd4 ''lift'' (col_mul (col_sub cw ct) w') in
     bindE (getcol sd5 ''lift'') (\<lambda>lift.
     Inr (gini_index ascending lift)))))))"

text \<open>
  The working table after line 77, with the name of its weight column. An object that
  passes a test on its type name without being a table has no \<^verbatim>\<open>sort_values\<close> or
  \<^verbatim>\<open>sort\<close> taking these arguments, and the call raises. The result \<open>None\<close> stands
  for the early \<^verbatim>\<open>return -1\<close> of line 73.
\<close>

definition working_table ::
  "pyobj \<Rightarrow> string \<Rightarrow> string option \<Rightarrow> string option \<Rightarrow> bool
     \<Rightarrow> error + (frame \<times> string) option" where
  "working_table data target ranking0 weight0 ascending =
     (let ranking = (case ranking0 of None \<Rightarrow> target | Some r \<Rightarrow> r) in
      if str_contains ''pandas'' (type_str data) then
        (case data of
           PandasDataFrame df \<Rightarrow>
             bindE (prepare_pandas df target ranking weight0 ascending) (\<lambda>(sorted_data, weight).
             bindE (normalize sorted_data target weight) (\<lambda>sd2. Inr (Some (sd2, weight))))
         | _ \<Rightarrow> Inl AttributeOrTypeError)
      else if str_contains ''H2OFrame'' (type_str data) then
        (case data of
           H2OFrame df \<Rightarrow>
             bindE (prepare_h2o df target ranking weight0 ascending) (\<lambda>(sorted_data, weight).
             bindE (normalize sorted_data target weight) (\<lambda>sd2. Inr (Some (sd2, weight))))
         | _ \<Rightarrow> Inl AttributeOrTypeError)
      else Inr None)"

text \<open>
  \<^verbatim>\<open>gini(data, target, ranking, weight, plot=False, ascending)\<close>. The plot of lines 92
  to 106 draws from the finished table and is not part of the model.
\<close>

definition gini ::
  "pyobj \<Rightarrow> string \<Rightarrow> string option \<Rightarrow> string option \<Rightarrow> bool \<Rightarrow> error + fval" where
  "gini data target ranking weight ascending =
     bindE (working_table data target ranking weight ascending) (\<lambda>r.
       case r of
         None \<Rightarrow> Inr (Fin (- 1))
       | Some (sd2, w) \<Rightarrow> integrate sd2 target w ascending)"

text \<open>A pandas DataFrame built from named columns of finite numbers.\<close>

definition data_frame :: "nat \<Rightarrow> (string \<times> rat list) list \<Rightarrow> frame" where
  "data_frame n cs = \<lparr>nrows = n, cols = map_of (map (\<lambda>(c, xs). (c, map Fin xs)) cs)\<rparr>"


section \<open>Exact arithmetic on finite columns\<close>

text \<open>Running totals of a column of rationals, from a starting value.\<close>

fun csum :: "rat \<Rightarrow> rat list \<Rightarrow> rat list" where
  "csum a [] = []"
| "csum a (x # xs) = (a + x) # csum (a + x) xs"


section \<open>Scaling a column\<close>

text \<open>The table in which every value of one column is multiplied by \<open>c\<close>.\<close>

definition scale_column :: "rat \<Rightarrow> string \<Rightarrow> frame \<Rightarrow> frame" where
  "scale_column c name df =
     df\<lparr>cols := (cols df)(name := map_option (map (fmul (Fin c))) (cols df name))\<rparr>"


text \<open>
  The sum of the column \<^verbatim>\<open>lift\<close> for a weight column \<open>w\<close> and an outcome column \<open>t\<close> of
  rationals, with the running totals started at \<open>a\<close> and \<open>b\<close>.
\<close>

definition lift_sum :: "rat \<Rightarrow> rat \<Rightarrow> rat list \<Rightarrow> rat list \<Rightarrow> rat" where
  "lift_sum a b w t =
     sum_list (map (\<lambda>(d, x). d * x) (zip (map (\<lambda>(x, y). x - y) (zip (csum a w) (csum b t))) w))"


section \<open>Objects and references\<close>

text \<open>
  Python passes \<^verbatim>\<open>data\<close> by reference, and \<^verbatim>\<open>sorted_data[c] = v\<close> changes a table in
  place. To follow which table an assignment changes, the objects live in a store,
  a reference is a position in it, and a new object is put at its end.
  \<^verbatim>\<open>sort_values\<close>, \<^verbatim>\<open>sort\<close>, the projection \<^verbatim>\<open>[[...]]\<close> and \<^verbatim>\<open>reset_index\<close> build new
  tables; an assignment to a column changes the table it is applied to.
\<close>

type_synonym heap = "pyobj list"

fun frame_of :: "pyobj \<Rightarrow> frame option" where
  "frame_of (PandasDataFrame df) = Some df"
| "frame_of (H2OFrame df) = Some df"
| "frame_of (OtherObject s) = None"

fun upd_frame :: "(frame \<Rightarrow> frame) \<Rightarrow> pyobj \<Rightarrow> pyobj" where
  "upd_frame f (PandasDataFrame df) = PandasDataFrame (f df)"
| "upd_frame f (H2OFrame df) = H2OFrame (f df)"
| "upd_frame f (OtherObject s) = OtherObject s"

definition frame_at :: "heap \<Rightarrow> nat \<Rightarrow> error + frame" where
  "frame_at h r =
     (if r < length h then (case frame_of (h ! r) of None \<Rightarrow> Inl AttributeOrTypeError | Some df \<Rightarrow> Inr df)
      else Inl AttributeOrTypeError)"

definition bindS ::
  "(heap \<Rightarrow> (error + 'a) \<times> heap) \<Rightarrow> ('a \<Rightarrow> heap \<Rightarrow> (error + 'b) \<times> heap)
     \<Rightarrow> heap \<Rightarrow> (error + 'b) \<times> heap" where
  "bindS m f h = (case m h of (Inl e, h') \<Rightarrow> (Inl e, h') | (Inr x, h') \<Rightarrow> f x h')"

text \<open>A new table, made from the table at \<open>r\<close> by an operation that may fail.\<close>

definition new_from :: "(frame \<Rightarrow> error + frame) \<Rightarrow> nat \<Rightarrow> heap \<Rightarrow> (error + nat) \<times> heap" where
  "new_from f r h =
     (case bindE (frame_at h r) f of
        Inl e \<Rightarrow> (Inl e, h)
      | Inr df \<Rightarrow> (Inr (length h), h @ [upd_frame (\<lambda>_. df) (h ! r)]))"

definition sort_values_ref :: "string \<Rightarrow> bool \<Rightarrow> nat \<Rightarrow> heap \<Rightarrow> (error + nat) \<times> heap" where
  "sort_values_ref by asc r = new_from (sort_values by asc) r"

definition select_ref :: "string list \<Rightarrow> nat \<Rightarrow> heap \<Rightarrow> (error + nat) \<times> heap" where
  "select_ref names r = new_from (select names) r"

definition reset_index_ref :: "nat \<Rightarrow> heap \<Rightarrow> (error + nat) \<times> heap" where
  "reset_index_ref r = new_from (\<lambda>df. Inr (reset_index df)) r"

definition getcol_ref :: "nat \<Rightarrow> string \<Rightarrow> heap \<Rightarrow> (error + fval list) \<times> heap" where
  "getcol_ref r c h = (bindE (frame_at h r) (\<lambda>df. getcol df c), h)"

definition nrows_ref :: "nat \<Rightarrow> heap \<Rightarrow> (error + nat) \<times> heap" where
  "nrows_ref r h = (bindE (frame_at h r) (\<lambda>df. Inr (nrows df)), h)"

text \<open>The assignment \<^verbatim>\<open>sorted_data[c] = xs\<close>: the table at \<open>r\<close> is changed in place.\<close>

definition setcol_ref :: "nat \<Rightarrow> string \<Rightarrow> fval list \<Rightarrow> heap \<Rightarrow> (error + unit) \<times> heap" where
  "setcol_ref r c xs h =
     (case frame_at h r of
        Inl e \<Rightarrow> (Inl e, h)
      | Inr df \<Rightarrow> (Inr (), h[r := upd_frame (\<lambda>df. setcol df c xs) (h ! r)]))"

definition prepare_ref ::
  "bool \<Rightarrow> nat \<Rightarrow> string \<Rightarrow> string \<Rightarrow> string option \<Rightarrow> bool
     \<Rightarrow> heap \<Rightarrow> (error + nat \<times> string) \<times> heap" where
  "prepare_ref pandas data target ranking weight ascending =
     (case weight of
        None \<Rightarrow>
          bindS (sort_values_ref ranking ascending data) (\<lambda>s.
          bindS (select_ref [target] s) (\<lambda>sorted_data.
          bindS (nrows_ref sorted_data) (\<lambda>n.
          bindS (setcol_ref sorted_data ''weight'' (replicate n (Fin 1))) (\<lambda>_.
          if pandas
          then bindS (reset_index_ref sorted_data) (\<lambda>sorted_data'.
               (\<lambda>h. (Inr (sorted_data', ''weight''), h)))
          else (\<lambda>h. (Inr (sorted_data, ''weight''), h))))))
      | Some w \<Rightarrow>
          bindS (sort_values_ref ranking ascending data) (\<lambda>s.
          bindS (select_ref [target, w] s) (\<lambda>sorted_data.
          if pandas
          then bindS (reset_index_ref sorted_data) (\<lambda>sorted_data'.
               (\<lambda>h. (Inr (sorted_data', w), h)))
          else (\<lambda>h. (Inr (sorted_data, w), h)))))"

definition normalize_ref :: "nat \<Rightarrow> string \<Rightarrow> string \<Rightarrow> heap \<Rightarrow> (error + unit) \<times> heap" where
  "normalize_ref sorted_data target weight =
     bindS (getcol_ref sorted_data target) (\<lambda>t.
     bindS (setcol_ref sorted_data target (col_div t (psum t))) (\<lambda>_.
     bindS (getcol_ref sorted_data weight) (\<lambda>w.
     setcol_ref sorted_data weight (col_div w (psum w)))))"

definition integrate_ref ::
  "nat \<Rightarrow> string \<Rightarrow> string \<Rightarrow> bool \<Rightarrow> heap \<Rightarrow> (error + fval) \<times> heap" where
  "integrate_ref sorted_data target weight ascending =
     bindS (getcol_ref sorted_data target) (\<lambda>t.
     bindS (setcol_ref sorted_data ''cumul_total'' (cumsum t)) (\<lambda>_.
     bindS (getcol_ref sorted_data weight) (\<lambda>w.
     bindS (setcol_ref sorted_data ''cumul_weight'' (cumsum w)) (\<lambda>_.
     bindS (getcol_ref sorted_data ''cumul_weight'') (\<lambda>cw.
     bindS (getcol_ref sorted_data ''cumul_total'') (\<lambda>ct.
     bindS (getcol_ref sorted_data weight) (\<lambda>w'.
     bindS (setcol_ref sorted_data ''lift'' (col_mul (col_sub cw ct) w')) (\<lambda>_.
     bindS (getcol_ref sorted_data ''lift'') (\<lambda>lift.
     (\<lambda>h. (Inr (gini_index ascending lift), h)))))))))))"

text \<open>
  \<^verbatim>\<open>gini\<close> on a store: \<open>data\<close> is the reference the caller passes. The result is the
  value returned or the exception raised, and the store after the call.
\<close>

definition gini_ref ::
  "nat \<Rightarrow> string \<Rightarrow> string option \<Rightarrow> string option \<Rightarrow> bool
     \<Rightarrow> heap \<Rightarrow> (error + fval) \<times> heap" where
  "gini_ref data target ranking0 weight0 ascending h =
     (let ranking = (case ranking0 of None \<Rightarrow> target | Some r \<Rightarrow> r) in
      if length h \<le> data then (Inl AttributeOrTypeError, h)
      else if str_contains ''pandas'' (type_str (h ! data)) then
        bindS (prepare_ref True data target ranking weight0 ascending) (\<lambda>(sorted_data, weight).
        bindS (normalize_ref sorted_data target weight) (\<lambda>_.
        integrate_ref sorted_data target weight ascending)) h
      else if str_contains ''H2OFrame'' (type_str (h ! data)) then
        bindS (prepare_ref False data target ranking weight0 ascending) (\<lambda>(sorted_data, weight).
        bindS (normalize_ref sorted_data target weight) (\<lambda>_.
        integrate_ref sorted_data target weight ascending)) h
      else (Inr (Fin (- 1)), h))"

text \<open>
  A computation on the store keeps the first \<open>n\<close> objects when it leaves them as
  they are and never shortens the store; \<open>Q\<close> holds for what it returns.
\<close>

definition keeps :: "nat \<Rightarrow> (heap \<Rightarrow> (error + 'a) \<times> heap) \<Rightarrow> ('a \<Rightarrow> bool) \<Rightarrow> bool" where
  "keeps n m Q =
     (\<forall>h res h'. n \<le> length h \<longrightarrow> m h = (res, h') \<longrightarrow>
        length h \<le> length h' \<and> take n h' = take n h \<and> (\<forall>x. res = Inr x \<longrightarrow> Q x))"

text \<open>
  A computation on the store that works on the table at \<open>r\<close> only follows a function \<open>f\<close>
  on tables when it returns what \<open>f\<close> returns and leaves at \<open>r\<close> the table that \<open>f\<close>
  yields.
\<close>

definition follows ::
  "nat \<Rightarrow> (heap \<Rightarrow> (error + 'a) \<times> heap) \<Rightarrow> (frame \<Rightarrow> error + 'a \<times> frame) \<Rightarrow> bool" where
  "follows r m f =
     (\<forall>h df. frame_at h r = Inr df \<longrightarrow>
        (case f df of
           Inl e \<Rightarrow> fst (m h) = Inl e
         | Inr (x, df') \<Rightarrow> fst (m h) = Inr x \<and> frame_at (snd (m h)) r = Inr df'))"

section \<open>Properties of the table operations\<close>




lemma col_div_Fin: "s \<noteq> 0 \<Longrightarrow> col_div (map Fin xs) (Fin s) = map Fin (map (\<lambda>x. x / s) xs)"
  by (simp add: col_div_def)



lemma length_reorder: "length keys = length xs \<Longrightarrow> length (reorder asc keys xs) = length xs"
proof -
  assume "length keys = length xs"
  have "length (filter (\<lambda>r. fst r \<noteq> NaN) (zip keys xs)) + length (filter (\<lambda>r. fst r = NaN) (zip keys xs))
        = length (zip keys xs)"
    using sum_length_filter_compl [of "\<lambda>r. fst r \<noteq> NaN" "zip keys xs"] by simp
  then show ?thesis using \<open>length keys = length xs\<close> by (simp add: reorder_def Let_def)
qed










lemma prepare_h2o_eq: "prepare_h2o df t r w a = prepare_pandas df t r w a"
  by (cases w) (simp_all add: prepare_h2o_def prepare_pandas_def reset_index_def)

lemma prepare_None:
  assumes "cols df r = Some keys" "cols df target = Some T"
  shows "prepare_pandas df target r None asc =
    Inr (\<lparr>nrows = nrows df,
          cols = [target \<mapsto> reorder asc keys T, ''weight'' \<mapsto> replicate (nrows df) (Fin 1)]\<rparr>,
         ''weight'')"
  using assms
  by (cases df) (auto simp: prepare_pandas_def sort_values_def select_def bindE_def setcol_def
      reset_index_def fun_eq_iff)

lemma prepare_Some:
  assumes "cols df r = Some keys" "cols df target = Some T" "cols df w = Some W" "target \<noteq> w"
  shows "prepare_pandas df target r (Some w) asc =
    Inr (\<lparr>nrows = nrows df,
          cols = [target \<mapsto> reorder asc keys T, w \<mapsto> reorder asc keys W]\<rparr>, w)"
  using assms
  by (cases df) (auto simp: prepare_pandas_def sort_values_def select_def bindE_def setcol_def
      reset_index_def fun_eq_iff)



lemma integrate_char:
  assumes "cols sd2 target = Some t" "cols sd2 weight = Some w2"
  shows "integrate sd2 target weight asc =
     (let w = (if weight = ''cumul_total'' then cumsum t else w2);
          w' = (if weight = ''cumul_weight'' then cumsum w else w)
      in Inr (gini_index asc (col_mul (col_sub (cumsum w) (cumsum t)) w')))"
  using assms by (simp add: integrate_def getcol_def bindE_def setcol_def Let_def gini_index_def)


lemma working_table_frame:
  assumes "data = PandasDataFrame df \<or> data = H2OFrame df"
  shows "working_table data target ranking weight asc =
     bindE (prepare_pandas df target (case ranking of None \<Rightarrow> target | Some r \<Rightarrow> r) weight asc)
       (\<lambda>(sd, w). bindE (normalize sd target w) (\<lambda>sd2. Inr (Some (sd2, w))))"
  using assms by (auto simp: working_table_def prepare_h2o_eq)






lemma wf_data_frame:
  "list_all (\<lambda>(c, xs). length xs = n) cs \<Longrightarrow> wf_frame (data_frame n cs)"
  by (induction cs) (auto simp: wf_frame_def data_frame_def)

lemma wf_frameD: "wf_frame df \<Longrightarrow> cols df c = Some xs \<Longrightarrow> length xs = nrows df"
  by (simp add: wf_frame_def)





lemma reorder_Nil [simp]: "reorder asc keys [] = []"
  by (simp add: reorder_def)


lemma normalize_total:
  assumes "cols sd target = Some t" "cols sd weight = Some w"
  shows "\<exists>sd2 t' w'. normalize sd target weight = Inr sd2 \<and> cols sd2 target = Some t'
           \<and> cols sd2 weight = Some w' \<and> nrows sd2 = nrows sd
           \<and> length t' = length t \<and> length w' = length w"
  using assms by (auto simp: normalize_def getcol_def bindE_def setcol_def col_div_def)

lemma prepare_total:
  assumes "cols df r = Some keys" "cols df target = Some t"
    and "\<And>w. weight = Some w \<Longrightarrow> w \<noteq> target \<and> cols df w \<noteq> None"
  shows "\<exists>sd w t' w'. prepare_pandas df target r weight asc = Inr (sd, w)
            \<and> cols sd target = Some t' \<and> cols sd w = Some w' \<and> nrows sd = nrows df
            \<and> (wf_frame df \<longrightarrow> length t' = nrows df \<and> length w' = nrows df)"
proof -
  have lk: "wf_frame df \<Longrightarrow> length keys = nrows df" using assms(1) by (rule wf_frameD [rotated])
  have lt: "wf_frame df \<Longrightarrow> length t = nrows df" using assms(2) by (rule wf_frameD [rotated])
  show ?thesis
  proof (cases weight)
    case None
    show ?thesis
      unfolding None prepare_None [OF assms(1,2)]
      by (auto simp: length_reorder lk lt)
  next
    case (Some w)
    with assms(3) obtain ws where w: "w \<noteq> target" "cols df w = Some ws" by auto
    have lw: "wf_frame df \<Longrightarrow> length ws = nrows df" using w(2) by (rule wf_frameD [rotated])
    show ?thesis
      unfolding Some using prepare_Some [OF assms(1,2) w(2), of asc] w(1)
      by (auto simp: length_reorder lk lt lw)
  qed
qed

lemma gini_frame:
  assumes "data = PandasDataFrame df \<or> data = H2OFrame df"
    and "prepare_pandas df target (case ranking of None \<Rightarrow> target | Some r \<Rightarrow> r) weight asc
           = Inr (sd, w)"
    and "normalize sd target w = Inr sd2"
  shows "gini data target ranking weight asc = integrate sd2 target w asc"
  using assms(2,3) by (simp add: gini_def working_table_frame [OF assms(1)] bindE_def)




















lemma nrows_scale_column [simp]: "nrows (scale_column c col df) = nrows df"
  by (simp add: scale_column_def)




lemma lift_sum_Nil [simp]: "lift_sum a b [] [] = 0"
  by (simp add: lift_sum_def)

lemma lift_sum_Cons [simp]:
  "lift_sum a b (x # w) (y # t) = ((a + x) - (b + y)) * x + lift_sum (a + x) (b + y) w t"
  by (simp add: lift_sum_def)



lemma sum_list_zip_fst:
  "length w = length t \<Longrightarrow> sum_list (map (\<lambda>(x, y). x) (zip w t)) = (sum_list w :: rat)"
  by (induction w t rule: list_induct2) simp_all


















section \<open>Properties of the store operations\<close>

lemma keepsI:
  assumes "\<And>h res h'. n \<le> length h \<Longrightarrow> m h = (res, h') \<Longrightarrow>
             length h \<le> length h' \<and> take n h' = take n h \<and> (\<forall>x. res = Inr x \<longrightarrow> Q x)"
  shows "keeps n m Q"
  using assms unfolding keeps_def by blast

lemma keepsD:
  assumes "keeps n m Q" "n \<le> length h" "m h = (res, h')"
  shows "length h \<le> length h'" "take n h' = take n h" "res = Inr x \<Longrightarrow> Q x"
  using assms unfolding keeps_def by blast+

lemma keeps_bindS:
  assumes m: "keeps n m Q" and f: "\<And>x. Q x \<Longrightarrow> keeps n (f x) R"
  shows "keeps n (bindS m f) R"
proof (rule keepsI)
  fix h res h'
  assume n: "n \<le> length h" and run: "bindS m f h = (res, h')"
  obtain r1 h1 where m1: "m h = (r1, h1)" by (cases "m h")
  note k1 = keepsD [OF m n m1]
  show "length h \<le> length h' \<and> take n h' = take n h \<and> (\<forall>x. res = Inr x \<longrightarrow> R x)"
  proof (cases r1)
    case (Inl e)
    with run m1 have "res = Inl e" "h' = h1" by (simp_all add: bindS_def)
    with k1 show ?thesis by simp
  next
    case (Inr x)
    with run m1 have f1: "f x h1 = (res, h')" by (simp add: bindS_def)
    have "Q x" using k1(3) Inr by simp
    from keepsD [OF f [OF this] _ f1] n k1(1,2) show ?thesis by auto
  qed
qed

lemma keeps_return: "Q x \<Longrightarrow> keeps n (\<lambda>h. (Inr x, h)) Q"
  by (rule keepsI) auto

lemma keeps_new_from: "keeps n (new_from f r) (\<lambda>x. n \<le> x)"
  by (rule keepsI) (auto simp: new_from_def split: sum.splits)

lemma keeps_getcol_ref: "keeps n (getcol_ref r c) (\<lambda>_. True)"
  by (rule keepsI) (auto simp: getcol_ref_def)

lemma keeps_nrows_ref: "keeps n (nrows_ref r) (\<lambda>_. True)"
  by (rule keepsI) (auto simp: nrows_ref_def)

lemma keeps_setcol_ref: "n \<le> r \<Longrightarrow> keeps n (setcol_ref r c xs) (\<lambda>_. True)"
  by (rule keepsI) (auto simp: setcol_ref_def split: sum.splits)


lemma keeps_prepare_ref:
  "keeps n (prepare_ref pandas data target ranking weight asc) (\<lambda>(r, w). n \<le> r)"
proof (cases weight)
  case None
  have tail: "keeps n (if pandas
          then bindS (reset_index_ref sd) (\<lambda>sd'. (\<lambda>h. (Inr (sd', ''weight''), h)))
          else (\<lambda>h. (Inr (sd, ''weight''), h))) (\<lambda>(r, w). n \<le> r)" if "n \<le> sd" for sd
  proof (cases pandas)
    case True
    have "keeps n (bindS (reset_index_ref sd) (\<lambda>sd'. (\<lambda>h. (Inr (sd', ''weight''), h))))
            (\<lambda>(r, w). n \<le> r)"
      unfolding reset_index_ref_def
      by (rule keeps_bindS [OF keeps_new_from]) (rule keeps_return, simp)
    with True show ?thesis by simp
  next
    case False
    have "keeps n (\<lambda>h. (Inr (sd, ''weight''), h)) (\<lambda>(r, w). n \<le> r)"
      by (rule keeps_return) (simp add: that)
    with False show ?thesis by simp
  qed
  show ?thesis
    unfolding prepare_ref_def None option.case sort_values_ref_def select_ref_def
    apply (rule keeps_bindS [OF keeps_new_from])
    apply (rule keeps_bindS [OF keeps_new_from])
    apply (rule keeps_bindS [OF keeps_nrows_ref])
    apply (rule keeps_bindS [OF keeps_setcol_ref])
     apply assumption
    apply (rule tail)
    apply assumption
    done
next
  case (Some w)
  have tail: "keeps n (if pandas
          then bindS (reset_index_ref sd) (\<lambda>sd'. (\<lambda>h. (Inr (sd', w), h)))
          else (\<lambda>h. (Inr (sd, w), h))) (\<lambda>(r, w). n \<le> r)" if "n \<le> sd" for sd
  proof (cases pandas)
    case True
    have "keeps n (bindS (reset_index_ref sd) (\<lambda>sd'. (\<lambda>h. (Inr (sd', w), h))))
            (\<lambda>(r, w). n \<le> r)"
      unfolding reset_index_ref_def
      by (rule keeps_bindS [OF keeps_new_from]) (rule keeps_return, simp)
    with True show ?thesis by simp
  next
    case False
    have "keeps n (\<lambda>h. (Inr (sd, w), h)) (\<lambda>(r, w). n \<le> r)"
      by (rule keeps_return) (simp add: that)
    with False show ?thesis by simp
  qed
  show ?thesis
    unfolding prepare_ref_def Some option.case sort_values_ref_def select_ref_def
    apply (rule keeps_bindS [OF keeps_new_from])
    apply (rule keeps_bindS [OF keeps_new_from])
    apply (rule tail)
    apply assumption
    done
qed


lemma keeps_normalize_ref:
  assumes "n \<le> r"
  shows "keeps n (normalize_ref r target weight) (\<lambda>_. True)"
  unfolding normalize_ref_def
  apply (rule keeps_bindS [OF keeps_getcol_ref])
  apply (rule keeps_bindS [OF keeps_setcol_ref [OF assms]])
  apply (rule keeps_bindS [OF keeps_getcol_ref])
  apply (rule keeps_setcol_ref [OF assms])
  done

lemma keeps_integrate_ref:
  assumes "n \<le> r"
  shows "keeps n (integrate_ref r target weight asc) (\<lambda>_. True)"
  unfolding integrate_ref_def
  apply (rule keeps_bindS [OF keeps_getcol_ref])
  apply (rule keeps_bindS [OF keeps_setcol_ref [OF assms]])
  apply (rule keeps_bindS [OF keeps_getcol_ref])
  apply (rule keeps_bindS [OF keeps_setcol_ref [OF assms]])
  apply (rule keeps_bindS [OF keeps_getcol_ref])
  apply (rule keeps_bindS [OF keeps_getcol_ref])
  apply (rule keeps_bindS [OF keeps_getcol_ref])
  apply (rule keeps_bindS [OF keeps_setcol_ref [OF assms]])
  apply (rule keeps_bindS [OF keeps_getcol_ref])
  apply (rule keeps_return)
  apply (rule TrueI)
  done

lemma keeps_gini_body:
  "keeps n (bindS (prepare_ref b data target r weight asc) (\<lambda>(sorted_data, w).
     bindS (normalize_ref sorted_data target w) (\<lambda>_.
     integrate_ref sorted_data target w asc))) (\<lambda>_. True)"
proof (rule keeps_bindS [OF keeps_prepare_ref])
  fix x :: "nat \<times> string"
  assume "case x of (r, w) \<Rightarrow> n \<le> r"
  then have r: "n \<le> fst x" by (cases x) simp
  have "keeps n (bindS (normalize_ref (fst x) target (snd x)) (\<lambda>_.
          integrate_ref (fst x) target (snd x) asc)) (\<lambda>_. True)"
    by (rule keeps_bindS [OF keeps_normalize_ref [OF r]]) (rule keeps_integrate_ref [OF r])
  then show "keeps n (case x of (sorted_data, w) \<Rightarrow>
          bindS (normalize_ref sorted_data target w) (\<lambda>_.
          integrate_ref sorted_data target w asc)) (\<lambda>_. True)"
    by (cases x) simp
qed

lemma gini_ref_cases:
  assumes "gini_ref data target ranking weight asc h = (res, h')"
  shows "h' = h \<or> (\<exists>b. bindS (prepare_ref b data target
           (case ranking of None \<Rightarrow> target | Some r \<Rightarrow> r) weight asc) (\<lambda>(sorted_data, w).
             bindS (normalize_ref sorted_data target w) (\<lambda>_.
             integrate_ref sorted_data target w asc)) h = (res, h'))"
proof -
  let ?body = "\<lambda>b. bindS (prepare_ref b data target
           (case ranking of None \<Rightarrow> target | Some r \<Rightarrow> r) weight asc) (\<lambda>(sorted_data, w).
             bindS (normalize_ref sorted_data target w) (\<lambda>_.
             integrate_ref sorted_data target w asc)) h"
  have "gini_ref data target ranking weight asc h = (Inl AttributeOrTypeError, h)
      \<or> gini_ref data target ranking weight asc h = (Inr (Fin (- 1)), h)
      \<or> gini_ref data target ranking weight asc h = ?body True
      \<or> gini_ref data target ranking weight asc h = ?body False"
    unfolding gini_ref_def Let_def by simp
  with assms show ?thesis by auto
qed


lemma frame_at_update:
  "frame_at h r = Inr df \<Longrightarrow> frame_at (h[r := upd_frame g (h ! r)]) r = Inr (g df)"
  by (cases "h ! r") (auto simp: frame_at_def split: if_splits)

lemma followsI:
  assumes "\<And>h df. frame_at h r = Inr df \<Longrightarrow>
             (case f df of
                Inl e \<Rightarrow> fst (m h) = Inl e
              | Inr (x, df') \<Rightarrow> fst (m h) = Inr x \<and> frame_at (snd (m h)) r = Inr df')"
  shows "follows r m f"
  using assms unfolding follows_def by blast

lemma followsD:
  assumes "follows r m f" "frame_at h r = Inr df"
  shows "f df = Inl e \<Longrightarrow> fst (m h) = Inl e"
    and "f df = Inr (x, df') \<Longrightarrow> fst (m h) = Inr x \<and> frame_at (snd (m h)) r = Inr df'"
  using assms unfolding follows_def by (auto split: sum.splits prod.splits)

lemma follows_getcol_ref:
  "follows r (getcol_ref r c) (\<lambda>df. bindE (getcol df c) (\<lambda>xs. Inr (xs, df)))"
  by (rule followsI) (auto simp: getcol_ref_def bindE_def split: sum.splits)

lemma follows_setcol_ref:
  "follows r (setcol_ref r c xs) (\<lambda>df. Inr ((), setcol df c xs))"
  by (rule followsI) (simp add: setcol_ref_def frame_at_update)

lemma follows_return: "follows r (\<lambda>h. (Inr x, h)) (\<lambda>df. Inr (x, df))"
  by (rule followsI) simp

lemma follows_bindS:
  assumes m: "follows r m f" and g: "\<And>x. follows r (g x) (g' x)"
  shows "follows r (bindS m g) (\<lambda>df. bindE (f df) (\<lambda>(x, df'). g' x df'))"
proof (rule followsI)
  fix h df
  assume fr: "frame_at h r = Inr df"
  obtain r1 h1 where m1: "m h = (r1, h1)" by (cases "m h")
  show "case bindE (f df) (\<lambda>(x, df'). g' x df') of
          Inl e \<Rightarrow> fst (bindS m g h) = Inl e
        | Inr (x, df') \<Rightarrow> fst (bindS m g h) = Inr x \<and> frame_at (snd (bindS m g h)) r = Inr df'"
  proof (cases "f df")
    case (Inl e)
    from followsD(1) [OF m fr Inl] m1 have "r1 = Inl e" by simp
    with Inl m1 show ?thesis by (simp add: bindS_def bindE_def)
  next
    case (Inr p)
    obtain x df1 where p: "p = (x, df1)" by (cases p)
    from followsD(2) [OF m fr Inr [unfolded p]] m1
    have r1: "r1 = Inr x" and f1: "frame_at h1 r = Inr df1" by simp_all
    have run: "bindS m g h = g x h1" using m1 r1 by (simp add: bindS_def)
    have "case g' x df1 of
            Inl e \<Rightarrow> fst (g x h1) = Inl e
          | Inr (y, df') \<Rightarrow> fst (g x h1) = Inr y \<and> frame_at (snd (g x h1)) r = Inr df'"
      using g [of x] f1 unfolding follows_def by blast
    then show ?thesis unfolding run by (simp add: Inr p bindE_def)
  qed
qed

lemma follows_cong: "follows r m f \<Longrightarrow> f = f' \<Longrightarrow> follows r m f'"
  by simp

lemma follows_normalize_ref:
  "follows r (normalize_ref r target w) (\<lambda>sd. bindE (normalize sd target w) (\<lambda>sd2. Inr ((), sd2)))"
  apply (rule follows_cong)
   apply (unfold normalize_ref_def)
   apply (rule follows_bindS [OF follows_getcol_ref])
   apply (rule follows_bindS [OF follows_setcol_ref])
   apply (rule follows_bindS [OF follows_getcol_ref])
   apply (rule follows_setcol_ref)
  apply (simp add: fun_eq_iff normalize_def bindE_def Let_def split: sum.splits)
  done

lemma follows_integrate_ref:
  "\<exists>F. follows r (integrate_ref r target w asc) F
       \<and> (\<forall>sd. map_sum id fst (F sd) = integrate sd target w asc)"
  apply (rule exI)
  apply (rule conjI)
   apply (unfold integrate_ref_def)
   apply (rule follows_bindS [OF follows_getcol_ref])
   apply (rule follows_bindS [OF follows_setcol_ref])
   apply (rule follows_bindS [OF follows_getcol_ref])
   apply (rule follows_bindS [OF follows_setcol_ref])
   apply (rule follows_bindS [OF follows_getcol_ref])
   apply (rule follows_bindS [OF follows_getcol_ref])
   apply (rule follows_bindS [OF follows_getcol_ref])
   apply (rule follows_bindS [OF follows_setcol_ref])
   apply (rule follows_bindS [OF follows_getcol_ref])
   apply (rule follows_return)
  apply (simp add: integrate_def bindE_def Let_def split: sum.splits)
  done


lemma new_from_ok:
  assumes "frame_at h r = Inr df" "f df = Inr df'"
  shows "\<exists>h'. new_from f r h = (Inr (length h), h') \<and> frame_at h' (length h) = Inr df'"
  using assms by (cases "h ! r") (auto simp: new_from_def bindE_def frame_at_def split: if_splits)

lemma new_from_fail:
  assumes "frame_at h r = Inr df" "f df = Inl e"
  shows "new_from f r h = (Inl e, h)"
  using assms by (simp add: new_from_def bindE_def)

lemma new_from_no_frame: "frame_at h r = Inl e \<Longrightarrow> new_from f r h = (Inl e, h)"
  by (simp add: new_from_def bindE_def)

lemma setcol_ref_ok:
  assumes "frame_at h r = Inr df"
  shows "\<exists>h'. setcol_ref r c xs h = (Inr (), h') \<and> frame_at h' r = Inr (setcol df c xs)"
  using assms by (simp add: setcol_ref_def frame_at_update)

lemma nrows_ref_frame: "frame_at h r = Inr df \<Longrightarrow> nrows_ref r h = (Inr (nrows df), h)"
  by (simp add: nrows_ref_def bindE_def)

lemma finish_ref:
  assumes "frame_at h sd = Inr df"
  shows "\<exists>ref h'. (if pandas
            then bindS (reset_index_ref sd) (\<lambda>sd'. (\<lambda>h. (Inr (sd', w), h)))
            else (\<lambda>h. (Inr (sd, w), h))) h = (Inr (ref, w), h')
          \<and> frame_at h' ref = Inr (reset_index df)"
proof (cases pandas)
  case True
  from new_from_ok [where f = "\<lambda>df. Inr (reset_index df)", OF assms refl]
  show ?thesis using True by (auto simp: reset_index_ref_def bindS_def)
next
  case False
  then show ?thesis using assms by (simp add: reset_index_def)
qed

lemma prepare_ref_frame:
  assumes fr: "frame_at h data = Inr df"
  shows "case prepare_pandas df target r weight asc of
           Inl e \<Rightarrow> fst (prepare_ref pandas data target r weight asc h) = Inl e
         | Inr (sd, w) \<Rightarrow>
             (\<exists>ref h'. prepare_ref pandas data target r weight asc h = (Inr (ref, w), h')
                \<and> frame_at h' ref = Inr sd)"
proof (cases "sort_values r asc df")
  case (Inl e)
  from new_from_fail [where f = "sort_values r asc", OF fr Inl] show ?thesis
    by (cases weight)
      (simp_all add: prepare_pandas_def prepare_ref_def sort_values_ref_def bindS_def bindE_def Inl)
next
  case s: (Inr s)
  from new_from_ok [where f = "sort_values r asc", OF fr s] obtain h1 where
    h1: "new_from (sort_values r asc) data h = (Inr (length h), h1)"
    and f1: "frame_at h1 (length h) = Inr s" by blast
  show ?thesis
  proof (cases weight)
    case None
    show ?thesis
    proof (cases "select [target] s")
      case (Inl e)
      from new_from_fail [where f = "select [target]", OF f1 Inl] show ?thesis
        by (simp add: None prepare_pandas_def prepare_ref_def sort_values_ref_def select_ref_def
            bindS_def bindE_def Inl s h1)
    next
      case (Inr sd)
      from new_from_ok [where f = "select [target]", OF f1 Inr] obtain h2 where
        h2: "new_from (select [target]) (length h) h1 = (Inr (length h1), h2)"
        and f2: "frame_at h2 (length h1) = Inr sd" by blast
      from setcol_ref_ok [OF f2, of "''weight''" "replicate (nrows sd) (Fin 1)"] obtain h3 where
        h3: "setcol_ref (length h1) ''weight'' (replicate (nrows sd) (Fin 1)) h2 = (Inr (), h3)"
        and f3: "frame_at h3 (length h1) = Inr (setcol sd ''weight'' (replicate (nrows sd) (Fin 1)))"
        by blast
      from finish_ref [OF f3, of pandas "''weight''"] show ?thesis
        by (simp add: None prepare_pandas_def prepare_ref_def sort_values_ref_def select_ref_def
            bindS_def bindE_def Inr s h1 h2 h3 nrows_ref_frame [OF f2] reset_index_def)
    qed
  next
    case (Some w)
    show ?thesis
    proof (cases "select [target, w] s")
      case (Inl e)
      from new_from_fail [where f = "select [target, w]", OF f1 Inl] show ?thesis
        by (simp add: Some prepare_pandas_def prepare_ref_def sort_values_ref_def select_ref_def
            bindS_def bindE_def Inl s h1)
    next
      case (Inr sd)
      from new_from_ok [where f = "select [target, w]", OF f1 Inr] obtain h2 where
        h2: "new_from (select [target, w]) (length h) h1 = (Inr (length h1), h2)"
        and f2: "frame_at h2 (length h1) = Inr sd" by blast
      from finish_ref [OF f2, of pandas w] show ?thesis
        by (simp add: Some prepare_pandas_def prepare_ref_def sort_values_ref_def select_ref_def
            bindS_def bindE_def Inr s h1 h2 reset_index_def)
    qed
  qed
qed

lemma prepare_ref_no_frame:
  assumes "frame_at h data = Inl e"
  shows "fst (prepare_ref pandas data target r weight asc h) = Inl e"
  using new_from_no_frame [OF assms]
  by (cases weight) (simp_all add: prepare_ref_def sort_values_ref_def bindS_def)


lemma bindS_error: "fst (m h) = Inl e \<Longrightarrow> fst (bindS m f h) = Inl e"
  by (cases "m h") (auto simp: bindS_def)

lemma bindS_value: "m h = (Inr x, h') \<Longrightarrow> bindS m f h = f x h'"
  by (simp add: bindS_def)

lemma normalize_integrate_ref_value:
  assumes fr: "frame_at h r = Inr sd"
  shows "fst (bindS (normalize_ref r target w) (\<lambda>_. integrate_ref r target w asc) h)
           = bindE (normalize sd target w) (\<lambda>sd2. integrate sd2 target w asc)"
proof (cases "normalize sd target w")
  case (Inl e)
  then have "bindE (normalize sd target w) (\<lambda>sd2. Inr ((), sd2)) = Inl e" by (simp add: bindE_def)
  from followsD(1) [OF follows_normalize_ref fr this]
  have "fst (normalize_ref r target w h) = Inl e" .
  from bindS_error [where m = "normalize_ref r target w" and h = h, OF this] Inl
  show ?thesis by (simp add: bindE_def)
next
  case (Inr sd2)
  then have "bindE (normalize sd target w) (\<lambda>sd2. Inr ((), sd2)) = Inr ((), sd2)"
    by (simp add: bindE_def)
  from followsD(2) [OF follows_normalize_ref fr this]
  have n: "fst (normalize_ref r target w h) = Inr ()"
    and f2: "frame_at (snd (normalize_ref r target w h)) r = Inr sd2" by simp_all
  let ?h2 = "snd (normalize_ref r target w h)"
  have run: "normalize_ref r target w h = (Inr (), ?h2)" using n by (cases "normalize_ref r target w h") simp
  obtain F where F: "follows r (integrate_ref r target w asc) F"
    and v: "\<And>sd. map_sum id fst (F sd) = integrate sd target w asc"
    using follows_integrate_ref [of r target w asc] by blast
  have "fst (integrate_ref r target w asc ?h2) = integrate sd2 target w asc"
  proof (cases "F sd2")
    case (Inl e)
    from followsD(1) [OF F f2 Inl] v [of sd2] Inl show ?thesis by simp
  next
    case (Inr p)
    obtain x df' where p: "p = (x, df')" by (cases p)
    from followsD(2) [OF F f2 Inr [unfolded p]] v [of sd2] Inr p show ?thesis by simp
  qed
  then show ?thesis
    by (simp add: bindS_value [where m = "normalize_ref r target w" and h = h, OF run] Inr bindE_def)
qed

lemma gini_body_value:
  assumes fr: "frame_at h data = Inr df"
  shows "fst (bindS (prepare_ref b data target r weight asc) (\<lambda>(sd, w).
            bindS (normalize_ref sd target w) (\<lambda>_. integrate_ref sd target w asc)) h)
         = bindE (prepare_pandas df target r weight asc) (\<lambda>(sd, w).
            bindE (normalize sd target w) (\<lambda>sd2. integrate sd2 target w asc))"
proof (cases "prepare_pandas df target r weight asc")
  case (Inl e)
  with prepare_ref_frame [OF fr, where target = target and r = r and weight = weight
      and asc = asc and pandas = b]
  have "fst (prepare_ref b data target r weight asc h) = Inl e" by simp
  from bindS_error [where m = "prepare_ref b data target r weight asc" and h = h, OF this] Inl
  show ?thesis by (simp add: bindE_def)
next
  case (Inr p)
  obtain sd w where p: "p = (sd, w)" by (cases p)
  with prepare_ref_frame [OF fr, where target = target and r = r and weight = weight
      and asc = asc and pandas = b] Inr
  obtain ref h' where run: "prepare_ref b data target r weight asc h = (Inr (ref, w), h')"
    and f1: "frame_at h' ref = Inr sd" by auto
  show ?thesis
    by (simp add: bindS_value [where m = "prepare_ref b data target r weight asc" and h = h, OF run]
        Inr p bindE_def normalize_integrate_ref_value [OF f1, unfolded bindE_def])
qed

lemma gini_body_no_frame:
  assumes "frame_at h data = Inl e"
  shows "fst (bindS (prepare_ref b data target r weight asc) (\<lambda>(sd, w).
            bindS (normalize_ref sd target w) (\<lambda>_. integrate_ref sd target w asc)) h) = Inl e"
  by (rule bindS_error [where m = "prepare_ref b data target r weight asc"])
    (rule prepare_ref_no_frame [OF assms])

lemma gini_unfold:
  "gini data target ranking weight asc =
     (let r = (case ranking of None \<Rightarrow> target | Some r \<Rightarrow> r) in
      if str_contains ''pandas'' (type_str data) then
        (case data of
           PandasDataFrame df \<Rightarrow>
             bindE (prepare_pandas df target r weight asc) (\<lambda>(sd, w).
               bindE (normalize sd target w) (\<lambda>sd2. integrate sd2 target w asc))
         | _ \<Rightarrow> Inl AttributeOrTypeError)
      else if str_contains ''H2OFrame'' (type_str data) then
        (case data of
           H2OFrame df \<Rightarrow>
             bindE (prepare_pandas df target r weight asc) (\<lambda>(sd, w).
               bindE (normalize sd target w) (\<lambda>sd2. integrate sd2 target w asc))
         | _ \<Rightarrow> Inl AttributeOrTypeError)
      else Inr (Fin (- 1)))"
  by (cases data)
    (auto simp: gini_def working_table_def bindE_def Let_def prepare_h2o_eq
      split: sum.splits prod.splits)

lemma gini_ref_value:
  assumes "data < length h"
  shows "fst (gini_ref data target ranking weight asc h) = gini (h ! data) target ranking weight asc"
proof (cases "h ! data")
  case (PandasDataFrame df)
  then have fr: "frame_at h data = Inr df" using assms by (simp add: frame_at_def)
  show ?thesis
    using assms
    by (simp add: gini_ref_def gini_unfold PandasDataFrame Let_def gini_body_value [OF fr])
next
  case (H2OFrame df)
  then have fr: "frame_at h data = Inr df" using assms by (simp add: frame_at_def)
  show ?thesis
    using assms
    by (simp add: gini_ref_def gini_unfold H2OFrame Let_def gini_body_value [OF fr])
next
  case (OtherObject s)
  then have fr: "frame_at h data = Inl AttributeOrTypeError" using assms by (simp add: frame_at_def)
  show ?thesis
    using assms
    by (simp add: gini_ref_def gini_unfold OtherObject Let_def gini_body_no_frame [OF fr])
qed


section \<open>The worked example\<close>



section \<open>Equal outcomes\<close>




section \<open>Normalization\<close>




section \<open>Degenerate totals and empty tables\<close>




text \<open>
  C3, as amended. \<^verbatim>\<open>gini\<close> has no check of the row count. For every table with zero
  rows (and the named columns) it raises nothing and returns the coefficient \<open>0\<close>.
\<close>

theorem zero_rows_give_zero:
  assumes data: "data = PandasDataFrame df \<or> data = H2OFrame df"
    and wf: "wf_frame df"
    and empty: "nrows df = 0"
    and rank: "cols df (case ranking of None \<Rightarrow> target | Some r \<Rightarrow> r) = Some keys"
    and outcome: "cols df target = Some t"
    and weights: "\<And>w. weight = Some w \<Longrightarrow> w \<noteq> target \<and> cols df w \<noteq> None"
  shows "gini data target ranking weight ascending = Inr (Fin 0)"
proof -
  from prepare_total [OF rank outcome weights, where asc = ascending]
  obtain sd w' t1 w1 where prep: "prepare_pandas df target
      (case ranking of None \<Rightarrow> target | Some r \<Rightarrow> r) weight ascending = Inr (sd, w')"
    and c1: "cols sd target = Some t1" "cols sd w' = Some w1"
    and l1: "length t1 = nrows df" "length w1 = nrows df" using wf by blast
  from normalize_total [OF c1] obtain sd2 t2 w2 where norm: "normalize sd target w' = Inr sd2"
    and c2: "cols sd2 target = Some t2" "cols sd2 w' = Some w2"
    and l2: "length t2 = length t1" "length w2 = length w1" by blast
  have e: "t2 = []" "w2 = []" using l1 l2 empty by simp_all
  have "integrate sd2 target w' ascending = Inr (Fin 0)"
    unfolding integrate_char [OF c2] e
    by (simp add: cumsum_def col_sub_def col_mul_def gini_index_def psum_def)
  then show ?thesis unfolding gini_frame [OF data prep norm] .
qed

theorem zero_rows_give_zero_witness:
  "wf_frame (data_frame 0 [(''y'', []), (''r'', [])]) \<and>
   gini (H2OFrame (data_frame 0 [(''y'', []), (''r'', [])])) ''y'' (Some ''r'') None False
     = Inr (Fin 0)"
proof -
  let ?df = "data_frame 0 [(''y'', []), (''r'', [])]"
  have wf: "wf_frame ?df" by (rule wf_data_frame) simp
  have "gini (H2OFrame ?df) ''y'' (Some ''r'') None False = Inr (Fin 0)"
  proof (rule zero_rows_give_zero [where df = ?df and keys = "[]" and t = "[]"])
    show "H2OFrame ?df = PandasDataFrame ?df \<or> H2OFrame ?df = H2OFrame ?df" by simp
    show "wf_frame ?df" by (rule wf)
    show "nrows ?df = 0" by (simp add: data_frame_def)
    show "cols ?df (case Some ''r'' of None \<Rightarrow> ''y'' | Some r \<Rightarrow> r) = Some []"
      by (simp add: data_frame_def)
    show "cols ?df ''y'' = Some []" by (simp add: data_frame_def)
    show "\<And>w. None = Some w \<Longrightarrow> w \<noteq> ''y'' \<and> cols ?df w \<noteq> None" by simp
  qed
  with wf show ?thesis by simp
qed

text \<open>
  C3 as stated fails: on a pandas table with a column \<^verbatim>\<open>y\<close> and no rows \<^verbatim>\<open>gini\<close>
  returns \<open>0\<close>.
\<close>

theorem empty_table_returns_zero:
  "gini (PandasDataFrame (data_frame 0 [(''y'', [])])) ''y'' None None True = Inr (Fin 0)"
  by code_simp


section \<open>The test on the type of \<^verbatim>\<open>data\<close>\<close>

text \<open>
  C9, as amended. The test of lines 50 and 61 is a search in the printed type name.
  For every argument whose printed type name contains neither \<^verbatim>\<open>pandas\<close> nor
  \<^verbatim>\<open>H2OFrame\<close>, \<^verbatim>\<open>gini\<close> returns \<open>-1\<close> and builds no working table.
\<close>

theorem sentinel_for_unrecognised_type_name:
  assumes "\<not> str_contains ''pandas'' (type_str data)"
    and "\<not> str_contains ''H2OFrame'' (type_str data)"
  shows "working_table data target ranking weight ascending = Inr None
         \<and> gini data target ranking weight ascending = Inr (Fin (- 1))"
  using assms by (simp add: gini_def working_table_def bindE_def)

theorem sentinel_for_unrecognised_type_name_witness:
  "working_table (OtherObject ''<class 'list'>'') ''y'' None None True = Inr None
   \<and> gini (OtherObject ''<class 'list'>'') ''y'' None None True = Inr (Fin (- 1))"
  by (rule sentinel_for_unrecognised_type_name) simp_all

text \<open>
  C9 as stated fails: a pandas Series is neither a DataFrame nor an H2OFrame, but its
  printed type name contains \<^verbatim>\<open>pandas\<close>; \<^verbatim>\<open>gini\<close> takes the pandas branch, where
  the call of \<^verbatim>\<open>sort_values\<close> raises, and \<open>-1\<close> is not returned.
\<close>

theorem pandas_series_no_sentinel:
  "gini (OtherObject ''<class 'pandas.core.series.Series'>'') ''y'' None None True
     = Inl AttributeOrTypeError"
  by code_simp


section \<open>Scale invariance\<close>




section \<open>Reversing the sort direction\<close>





section \<open>The caller's dataset\<close>

text \<open>
  C8. Whatever \<^verbatim>\<open>gini\<close> is called with and however it ends, every object that was in
  the store before the call, the caller's dataset among them, is there unchanged after
  it: the assignments of lines 56, 67 and 76 to 85 change tables that the call itself
  has built. (By \<open>gini_ref_value\<close> the value returned is the one of \<open>gini\<close>.)
\<close>

theorem input_dataset_unchanged:
  "take (length h) (snd (gini_ref data target ranking weight ascending h)) = h"
proof -
  obtain res h' where run: "gini_ref data target ranking weight ascending h = (res, h')"
    by (cases "gini_ref data target ranking weight ascending h")
  from gini_ref_cases [OF run] have "take (length h) h' = h"
  proof
    assume "h' = h"
    then show ?thesis by simp
  next
    assume "\<exists>b. bindS (prepare_ref b data target
           (case ranking of None \<Rightarrow> target | Some r \<Rightarrow> r) weight ascending) (\<lambda>(sorted_data, w).
             bindS (normalize_ref sorted_data target w) (\<lambda>_.
             integrate_ref sorted_data target w ascending)) h = (res, h')"
    then obtain b where "bindS (prepare_ref b data target
           (case ranking of None \<Rightarrow> target | Some r \<Rightarrow> r) weight ascending) (\<lambda>(sorted_data, w).
             bindS (normalize_ref sorted_data target w) (\<lambda>_.
             integrate_ref sorted_data target w ascending)) h = (res, h')" ..
    from keepsD(2) [OF keeps_gini_body _ this, of "length h"] show ?thesis by simp
  qed
  then show ?thesis by (simp add: run)
qed

end
